theory Spec2Isabelle
  imports Main "HOL-Library.Word"
begin

unbundle bit_operations_syntax

section \<open>The AHB-lite responder of \<^verbatim>\<open>ahb_slave.py\<close>\<close>

subsection \<open>Signal values, exceptions and enumerations\<close>

text \<open>
  A value read from a bus wire is either resolvable, and then a non-negative integer is
  read from it, or it holds an \<^verbatim>\<open>x\<close>/\<^verbatim>\<open>z\<close> bit and is not
  (\<^verbatim>\<open>is_resolvable\<close> is false). \<open>None\<close> is the unresolvable value.
\<close>

type_synonym sigval = "int option"

text \<open>
  The exceptions the code can raise. \<open>SizeLargerThanBus\<close> and \<open>SizeNotPowerOfTwo\<close> are the
  two \<^verbatim>\<open>ValueError\<close>s of \<^verbatim>\<open>_check_size\<close>; \<open>NotAnEnumMember\<close> is the
  \<^verbatim>\<open>ValueError\<close> of an enum constructor applied to a value that is no member;
  \<open>Unresolvable\<close> is the \<^verbatim>\<open>ValueError\<close> of reading an integer out of an unresolvable
  value; \<open>UnboundLocalError\<close> and \<open>OverflowError\<close> are Python's own; \<open>StopIteration\<close> is an
  exhausted backpressure generator; \<open>OutOfBounds\<close> is the storage backend refusing an access.
\<close>

datatype exn =
    SizeLargerThanBus
  | SizeNotPowerOfTwo
  | NotAnEnumMember
  | Unresolvable
  | UnboundLocalError
  | OverflowError
  | StopIteration
  | OutOfBounds

text \<open>
  Modelled from the spec: the enumerations of \<^verbatim>\<open>ahb_types.py\<close>, which the slave imports
  (transfer type IDLE, BUSY, NONSEQ, SEQ; direction READ, WRITE; response OKAY, ERROR; size
  class BYTE=0, HWORD=1, WORD=2, DWORD=3 meaning \<open>2 ^ n\<close> bytes). A size class is kept as the
  integer it is (\<^verbatim>\<open>2**size\<close> computes with it), so that the hooks can be asked about any
  size class.
\<close>

datatype AHBTrans = IDLE | BUSY | NONSEQ | SEQ

datatype AHBWrite = READ | WRITE

datatype AHBResp = OKAY | ERROR

type_synonym AHBSize = nat

definition BYTE :: AHBSize where "BYTE = 0"
definition HWORD :: AHBSize where "HWORD = 1"
definition WORD :: AHBSize where "WORD = 2"
definition DWORD :: AHBSize where "DWORD = 3"

fun resp_code :: "AHBResp \<Rightarrow> int" where
  "resp_code OKAY = 0"
| "resp_code ERROR = 1"

definition AHBTrans_of :: "int \<Rightarrow> exn + AHBTrans" where
  "AHBTrans_of v =
     (if v = 0 then Inr IDLE else if v = 1 then Inr BUSY
      else if v = 2 then Inr NONSEQ else if v = 3 then Inr SEQ
      else Inl NotAnEnumMember)"

definition AHBWrite_of :: "int \<Rightarrow> exn + AHBWrite" where
  "AHBWrite_of v =
     (if v = 0 then Inr READ else if v = 1 then Inr WRITE else Inl NotAnEnumMember)"

definition AHBSize_of :: "int \<Rightarrow> exn + AHBSize" where
  "AHBSize_of v =
     (if v = 0 then Inr BYTE else if v = 1 then Inr HWORD
      else if v = 2 then Inr WORD else if v = 3 then Inr DWORD
      else Inl NotAnEnumMember)"

subsection \<open>The storage backend\<close>

text \<open>
  Modelled from the spec: the class \<^verbatim>\<open>Memory\<close> of \<^verbatim>\<open>memory.py\<close>, which is not part of
  the slave's file: "a flat byte-addressable array with bounds checks", "fixed-size byte
  array", "supporting bounded little-endian reads/writes". \<open>Memory_read\<close> returns the
  \<open>len\<close> bytes from \<open>address\<close> on, \<open>Memory_write\<close> stores the given bytes from
  \<open>address\<close> on, and both refuse an access that does not lie inside the array.
\<close>

type_synonym byte = "8 word"

datatype Memory = Memory (mem: "byte list")

definition Memory_size :: "Memory \<Rightarrow> int" where
  "Memory_size m = int (length (mem m))"

definition Memory_read :: "Memory \<Rightarrow> int \<Rightarrow> nat \<Rightarrow> exn + byte list" where
  "Memory_read m address len =
     (if 0 \<le> address \<and> address + int len \<le> Memory_size m
      then Inr (take len (drop (nat address) (mem m)))
      else Inl OutOfBounds)"

definition Memory_write :: "Memory \<Rightarrow> int \<Rightarrow> byte list \<Rightarrow> exn + Memory" where
  "Memory_write m address data =
     (if 0 \<le> address \<and> address + int (length data) \<le> Memory_size m
      then Inr (Memory (take (nat address) (mem m) @ data
                          @ drop (nat address + length data) (mem m)))
      else Inl OutOfBounds)"

subsection \<open>Python's little-endian integer conversions\<close>

text \<open>
  \<^verbatim>\<open>int.from_bytes(data, byteorder="little")\<close> and
  \<^verbatim>\<open>n.to_bytes(length, byteorder="little")\<close>; the latter raises
  \<^verbatim>\<open>OverflowError\<close> on a negative integer and on one that does not fit.
\<close>

fun from_bytes :: "byte list \<Rightarrow> int" where
  "from_bytes [] = 0"
| "from_bytes (b # bs) = uint b + 256 * from_bytes bs"

fun le_bytes :: "int \<Rightarrow> nat \<Rightarrow> byte list" where
  "le_bytes n 0 = []"
| "le_bytes n (Suc k) = word_of_int n # le_bytes (n div 256) k"

definition to_bytes :: "int \<Rightarrow> nat \<Rightarrow> exn + byte list" where
  "to_bytes n len =
     (if 0 \<le> n \<and> n < 256 ^ len then Inr (le_bytes n len) else Inl OverflowError)"

subsection \<open>The hooks of the memory-backed responder\<close>

text \<open>
  \<^verbatim>\<open>AHBLiteSlaveRAM._chk_rd\<close> and \<^verbatim>\<open>_chk_wr\<close>: the access is refused when
  \<^verbatim>\<open>addr + (2**size) > self.memory.size\<close>. They read the size of the backend only.
\<close>

definition AHBLiteSlaveRAM_chk_rd :: "Memory \<Rightarrow> int \<Rightarrow> AHBSize \<Rightarrow> bool" where
  "AHBLiteSlaveRAM_chk_rd m addr sz =
     (if addr + 2 ^ sz > Memory_size m then False else True)"

definition AHBLiteSlaveRAM_chk_wr :: "Memory \<Rightarrow> int \<Rightarrow> AHBSize \<Rightarrow> bool" where
  "AHBLiteSlaveRAM_chk_wr m addr sz =
     (if addr + 2 ^ sz > Memory_size m then False else True)"

text \<open>\<^verbatim>\<open>AHBLiteSlaveRAM._rd\<close>: read \<^verbatim>\<open>2**size\<close> bytes and reassemble them.\<close>

definition AHBLiteSlaveRAM_rd :: "Memory \<Rightarrow> int \<Rightarrow> AHBSize \<Rightarrow> exn + int" where
  "AHBLiteSlaveRAM_rd m addr sz =
     (case Memory_read m addr (2 ^ sz) of
        Inl e \<Rightarrow> Inl e
      | Inr data \<Rightarrow> Inr (from_bytes data))"

text \<open>
  \<^verbatim>\<open>value & 0xFF\<close> on the value of the write-data wire reads its integer first, which
  raises on an unresolvable value.
\<close>

definition mask_value :: "sigval \<Rightarrow> int \<Rightarrow> exn + int" where
  "mask_value v m = (case v of None \<Rightarrow> Inl Unresolvable | Some n \<Rightarrow> Inr (n AND m))"

text \<open>
  \<^verbatim>\<open>AHBLiteSlaveRAM._wr\<close>: the \<^verbatim>\<open>if\<close>/\<^verbatim>\<open>elif\<close> chain has no \<^verbatim>\<open>else\<close>, so for a
  size class other than the four the local \<^verbatim>\<open>data\<close> is unbound when
  \<^verbatim>\<open>data.to_bytes\<close> reads it. The result is the new backend and the returned \<open>0\<close>.
\<close>

definition AHBLiteSlaveRAM_wr ::
  "Memory \<Rightarrow> int \<Rightarrow> AHBSize \<Rightarrow> sigval \<Rightarrow> exn + (Memory \<times> int)" where
  "AHBLiteSlaveRAM_wr m addr sz v =
     (case (if sz = BYTE then mask_value v 0xFF
            else if sz = HWORD then mask_value v 0xFFFF
            else if sz = WORD then mask_value v 0xFFFFFFFF
            else if sz = DWORD then mask_value v 0xFFFFFFFFFFFFFFFF
            else Inl UnboundLocalError) of
        Inl e \<Rightarrow> Inl e
      | Inr data \<Rightarrow>
          (case to_bytes data (2 ^ sz) of
             Inl e \<Rightarrow> Inl e
           | Inr bs \<Rightarrow>
               (case Memory_write m addr bs of
                  Inl e \<Rightarrow> Inl e
                | Inr m' \<Rightarrow> Inr (m', 0))))"

subsection \<open>The size check\<close>

text \<open>\<^verbatim>\<open>AHBLiteSlave._check_size\<close>: two raises, in this order; otherwise it returns.\<close>

definition check_size :: "int \<Rightarrow> int \<Rightarrow> exn + unit" where
  "check_size sz data_bus_width =
     (if sz > data_bus_width then Inl SizeLargerThanBus
      else if sz \<le> 0 \<or> (sz AND (sz - 1)) \<noteq> 0 then Inl SizeNotPowerOfTwo
      else Inr ())"

subsection \<open>Configuration, inputs and state of the responder\<close>

text \<open>
  What the constructor and the bus fix for one instance: the default drive value
  \<^verbatim>\<open>def_val\<close> (\<open>Some False\<close> is 0, \<open>Some True\<close> is 1, \<open>None\<close> is an unresolvable
  value such as the default \<^verbatim>\<open>"Z"\<close>), whether a backpressure generator \<^verbatim>\<open>bp\<close> was
  given, \<^verbatim>\<open>bus.data_width\<close>, the widths of \<^verbatim>\<open>hrdata\<close> and \<^verbatim>\<open>hresp\<close>, and the
  flags \<^verbatim>\<open>bus.hsel_exist\<close> and \<^verbatim>\<open>bus.hready_in_exist\<close>.
\<close>

record config =
  def_val :: "bool option"
  has_bp :: bool
  data_width :: int
  hrdata_len :: nat
  hresp_len :: nat
  hsel_exist :: bool
  hready_in_exist :: bool

text \<open>
  What the machine reads at one rising edge: the wires driven by the master, and what
  \<^verbatim>\<open>next(self.bp)\<close> yields at this edge (\<open>None\<close> when the generator is exhausted).
\<close>

record edge_in =
  htrans :: sigval
  hwrite :: sigval
  haddr :: sigval
  hsize :: sigval
  hwdata :: sigval
  hsel :: sigval
  hready_in :: sigval
  bp_next :: "bool option"

text \<open>
  The four overridable methods \<^verbatim>\<open>_chk_rd\<close>, \<^verbatim>\<open>_chk_wr\<close>, \<^verbatim>\<open>_rd\<close> and
  \<^verbatim>\<open>_wr\<close>, over a backend of type \<open>'m\<close>. Only \<^verbatim>\<open>_wr\<close> changes the backend.
\<close>

record 'm hooks =
  chk_rd :: "'m \<Rightarrow> int \<Rightarrow> AHBSize \<Rightarrow> bool"
  chk_wr :: "'m \<Rightarrow> int \<Rightarrow> AHBSize \<Rightarrow> bool"
  rd :: "'m \<Rightarrow> int \<Rightarrow> AHBSize \<Rightarrow> exn + int"
  wr :: "'m \<Rightarrow> int \<Rightarrow> AHBSize \<Rightarrow> sigval \<Rightarrow> exn + ('m \<times> int)"

text \<open>
  The locals of \<^verbatim>\<open>_proc_txn\<close> that live across edges, the three wires the machine drives
  (an edge reads back what the edge before drove), and the backend.
\<close>

record 'm slave_state =
  wr_start :: bool
  rd_start :: bool
  error :: bool
  txn_addr :: int
  txn_size :: AHBSize
  txn_type :: AHBWrite
  hready :: sigval
  hresp :: sigval
  hrdata :: sigval
  backend :: 'm

text \<open>
  An edge either completes with the next state, or raises: then the exception comes with
  the state as it was at the raise, which shows what had been driven before it.
\<close>

type_synonym 'm outcome = "(exn \<times> 'm slave_state) + 'm slave_state"

definition out_state :: "'m outcome \<Rightarrow> 'm slave_state" where
  "out_state r = (case r of Inl (e, s) \<Rightarrow> s | Inr s \<Rightarrow> s)"

text \<open>The hooks of the base class \<^verbatim>\<open>AHBLiteSlave\<close> and of \<^verbatim>\<open>AHBLiteSlaveRAM\<close>.\<close>

definition AHBLiteSlave_hooks :: "'m hooks" where
  "AHBLiteSlave_hooks =
     \<lparr>chk_rd = (\<lambda>m addr sz. True), chk_wr = (\<lambda>m addr sz. True),
      rd = (\<lambda>m addr sz. Inr 0), wr = (\<lambda>m addr sz v. Inr (m, 0))\<rparr>"

definition AHBLiteSlaveRAM_hooks :: "Memory hooks" where
  "AHBLiteSlaveRAM_hooks =
     \<lparr>chk_rd = AHBLiteSlaveRAM_chk_rd, chk_wr = AHBLiteSlaveRAM_chk_wr,
      rd = AHBLiteSlaveRAM_rd, wr = AHBLiteSlaveRAM_wr\<rparr>"

subsection \<open>Reading and driving wires\<close>

text \<open>\<^verbatim>\<open>_get_def\<close>: a vector of \<open>width\<close> bits, each of them \<^verbatim>\<open>def_val\<close>.\<close>

definition get_def :: "config \<Rightarrow> nat \<Rightarrow> sigval" where
  "get_def cfg width =
     (case def_val cfg of
        None \<Rightarrow> None
      | Some b \<Rightarrow> Some (if b then 2 ^ width - 1 else 0))"

text \<open>
  \<^verbatim>\<open>value == k\<close> reads the integer of the value, which raises when the value is
  unresolvable; the truth value of a value (\<^verbatim>\<open>rd_start and cur_hready\<close>) is whether
  some bit of it is 1, and raises nothing.
\<close>

definition sig_eq :: "sigval \<Rightarrow> int \<Rightarrow> exn + bool" where
  "sig_eq v k = (case v of None \<Rightarrow> Inl Unresolvable | Some n \<Rightarrow> Inr (n = k))"

definition truthy :: "sigval \<Rightarrow> bool" where
  "truthy v = (case v of None \<Rightarrow> False | Some n \<Rightarrow> n \<noteq> 0)"

subsection \<open>The acceptance condition\<close>

text \<open>\<^verbatim>\<open>_check_inputs\<close>: the four wires, in the order of the dictionary.\<close>

definition check_inputs :: "edge_in \<Rightarrow> bool" where
  "check_inputs inp =
     list_all (\<lambda>v. v \<noteq> None) [htrans inp, hwrite inp, haddr inp, hsize inp]"

text \<open>
  \<^verbatim>\<open>_check_valid_txn\<close>. The \<^verbatim>\<open>and\<close> chains stop at the first false operand, so
  \<^verbatim>\<open>hready_in\<close> is compared only after \<^verbatim>\<open>hsel\<close> was found to be 1.
\<close>

definition check_valid_txn :: "config \<Rightarrow> edge_in \<Rightarrow> exn + bool" where
  "check_valid_txn cfg inp =
     (case htrans inp of
        None \<Rightarrow> Inl Unresolvable
      | Some t \<Rightarrow>
          (case AHBTrans_of t of
             Inl e \<Rightarrow> Inl e
           | Inr tr \<Rightarrow>
               (let htrans_st = (tr \<noteq> IDLE \<and> tr \<noteq> BUSY) in
                if hsel_exist cfg then
                  if hready_in_exist cfg then
                    (case sig_eq (hsel inp) 1 of
                       Inl e \<Rightarrow> Inl e
                     | Inr sel \<Rightarrow>
                         if sel then
                           (case sig_eq (hready_in inp) 1 of
                              Inl e \<Rightarrow> Inl e
                            | Inr rdy \<Rightarrow> Inr (rdy \<and> htrans_st))
                         else Inr False)
                  else
                    (case sig_eq (hsel inp) 1 of
                       Inl e \<Rightarrow> Inl e
                     | Inr sel \<Rightarrow> Inr (sel \<and> htrans_st))
                else Inr htrans_st)))"

text \<open>
  The condition of "Check for new txn":
  \<^verbatim>\<open>(cur_hready == 1) and self._check_inputs() and self._check_valid_txn()\<close>.
\<close>

definition new_txn :: "config \<Rightarrow> edge_in \<Rightarrow> sigval \<Rightarrow> exn + bool" where
  "new_txn cfg inp cur_hready =
     (case sig_eq cur_hready 1 of
        Inl e \<Rightarrow> Inl e
      | Inr one \<Rightarrow>
          if one then (if check_inputs inp then check_valid_txn cfg inp else Inr False)
          else Inr False)"

subsection \<open>One rising edge of \<^verbatim>\<open>_proc_txn\<close>\<close>

text \<open>
  "Default values in case there is no txn", then the backpressure generator: \<^verbatim>\<open>hready\<close>
  gets the default value, \<^verbatim>\<open>hresp\<close> gets OKAY, and \<^verbatim>\<open>hready\<close> gets 1 when the
  generator grants the cycle or when there is no generator.
\<close>

definition next_ready :: "config \<Rightarrow> edge_in \<Rightarrow> bool option" where
  "next_ready cfg inp = (if has_bp cfg then bp_next inp else Some True)"

definition drive_defaults :: "config \<Rightarrow> edge_in \<Rightarrow> 'm slave_state \<Rightarrow> 'm outcome" where
  "drive_defaults cfg inp s =
     (let s1 = s\<lparr>hready := get_def cfg 1, hresp := Some (resp_code OKAY)\<rparr> in
      case next_ready cfg inp of
        None \<Rightarrow> Inl (StopIteration, s1)
      | Some ready \<Rightarrow> Inr (if ready then s1\<lparr>hready := Some 1\<rparr> else s1))"

text \<open>
  The \<^verbatim>\<open>else\<close> branch of the error test: a pending read is cleared and \<^verbatim>\<open>hrdata\<close>
  gets the default value; a pending write is cleared and, for a latched WRITE, dispatched
  to \<^verbatim>\<open>_wr\<close> with the value of \<^verbatim>\<open>hwdata\<close>, whose result goes to \<^verbatim>\<open>hrdata\<close>.
\<close>

definition complete_pending ::
  "config \<Rightarrow> 'm hooks \<Rightarrow> edge_in \<Rightarrow> sigval \<Rightarrow> 'm slave_state \<Rightarrow> 'm outcome" where
  "complete_pending cfg hk inp cur_hready s =
     (let s1 = (if rd_start s \<and> truthy cur_hready
                then s\<lparr>rd_start := False, hrdata := get_def cfg (hrdata_len cfg)\<rparr>
                else s) in
      if wr_start s1 \<and> truthy cur_hready then
        (let s2 = s1\<lparr>wr_start := False\<rparr> in
         if txn_type s2 = WRITE then
           (case wr hk (backend s2) (txn_addr s2) (txn_size s2) (hwdata inp) of
              Inl e \<Rightarrow> Inl (e, s2)
            | Inr (m', r) \<Rightarrow>
                Inr (s2\<lparr>backend := m', hrdata := Some r, hresp := Some (resp_code OKAY)\<rparr>))
         else Inr s2)
      else Inr s1)"

text \<open>
  The error test. \<^verbatim>\<open>error and (cur_hresp == AHBResp.OKAY)\<close> compares only when the flag
  is set.
\<close>

definition respond ::
  "config \<Rightarrow> 'm hooks \<Rightarrow> edge_in \<Rightarrow> sigval \<Rightarrow> sigval \<Rightarrow> 'm slave_state \<Rightarrow> 'm outcome" where
  "respond cfg hk inp cur_hready cur_hresp s =
     (if error s then
        (case sig_eq cur_hresp (resp_code OKAY) of
           Inl e \<Rightarrow> Inl (e, s)
         | Inr first \<Rightarrow>
             if first then Inr (s\<lparr>hready := Some 0, hresp := Some (resp_code ERROR)\<rparr>)
             else
               (case sig_eq cur_hresp (resp_code ERROR) of
                  Inl e \<Rightarrow> Inl (e, s)
                | Inr second \<Rightarrow>
                    if second
                    then Inr (s\<lparr>hready := Some 1, hresp := Some (resp_code ERROR),
                                error := False\<rparr>)
                    else complete_pending cfg hk inp cur_hready s))
      else complete_pending cfg hk inp cur_hready s)"

text \<open>Everything an edge does before "Check for new txn".\<close>

definition data_phase ::
  "config \<Rightarrow> 'm hooks \<Rightarrow> edge_in \<Rightarrow> 'm slave_state \<Rightarrow> 'm outcome" where
  "data_phase cfg hk inp s =
     (case drive_defaults cfg inp s of
        Inl x \<Rightarrow> Inl x
      | Inr s1 \<Rightarrow> respond cfg hk inp (hready s) (hresp s) s1)"

text \<open>
  The three assignments and the size check that open the branch of a new transaction. The
  branch is entered after \<^verbatim>\<open>_check_inputs\<close>, so the \<open>None\<close> cases are never taken.
\<close>

definition latch :: "config \<Rightarrow> edge_in \<Rightarrow> 'm slave_state \<Rightarrow> 'm outcome" where
  "latch cfg inp s =
     (case haddr inp of
        None \<Rightarrow> Inl (Unresolvable, s)
      | Some a \<Rightarrow>
          (let s1 = s\<lparr>txn_addr := a\<rparr> in
           case (case hsize inp of None \<Rightarrow> Inl Unresolvable | Some z \<Rightarrow> AHBSize_of z) of
             Inl e \<Rightarrow> Inl (e, s1)
           | Inr sz \<Rightarrow>
               (let s2 = s1\<lparr>txn_size := sz\<rparr> in
                case (case hwrite inp of None \<Rightarrow> Inl Unresolvable
                      | Some w \<Rightarrow> AHBWrite_of w) of
                  Inl e \<Rightarrow> Inl (e, s2)
                | Inr ty \<Rightarrow>
                    (let s3 = s2\<lparr>txn_type := ty\<rparr> in
                     case check_size (2 ^ sz) (data_width cfg) of
                       Inl e \<Rightarrow> Inl (e, s3)
                     | Inr u \<Rightarrow> Inr s3))))"

text \<open>
  The WRITE branch and then the READ branch, on the transaction just latched. A read that
  passes \<^verbatim>\<open>_chk_rd\<close> is served at once: \<^verbatim>\<open>hrdata\<close> gets the result of \<^verbatim>\<open>_rd\<close>.
\<close>

definition start_txn :: "'m hooks \<Rightarrow> 'm slave_state \<Rightarrow> 'm outcome" where
  "start_txn hk s =
     (let s1 = (if txn_type s = WRITE then
                  (if \<not> chk_wr hk (backend s) (txn_addr s) (txn_size s)
                   then s\<lparr>hready := Some 0, hrdata := Some 0, error := True,
                           wr_start := False\<rparr>
                   else s\<lparr>wr_start := True, hresp := Some (resp_code OKAY)\<rparr>)
                else s) in
      if txn_type s1 = READ then
        (if \<not> chk_rd hk (backend s1) (txn_addr s1) (txn_size s1)
         then Inr (s1\<lparr>hready := Some 0, error := True\<rparr>)
         else
           (let s2 = s1\<lparr>rd_start := True\<rparr> in
            case rd hk (backend s2) (txn_addr s2) (txn_size s2) of
              Inl e \<Rightarrow> Inl (e, s2)
            | Inr d \<Rightarrow> Inr (s2\<lparr>hrdata := Some d, hresp := Some (resp_code OKAY)\<rparr>)))
      else Inr s1)"

text \<open>"Check for new txn": the condition, and under it the latch and the two branches.\<close>

definition addr_phase ::
  "config \<Rightarrow> 'm hooks \<Rightarrow> edge_in \<Rightarrow> sigval \<Rightarrow> 'm slave_state \<Rightarrow> 'm outcome" where
  "addr_phase cfg hk inp cur_hready s =
     (case new_txn cfg inp cur_hready of
        Inl e \<Rightarrow> Inl (e, s)
      | Inr go \<Rightarrow>
          if go then
            (case latch cfg inp s of
               Inl x \<Rightarrow> Inl x
             | Inr s1 \<Rightarrow> start_txn hk s1)
          else Inr s)"

text \<open>The body of the \<^verbatim>\<open>while True\<close> loop, after the wait for the rising edge.\<close>

definition proc_txn_edge ::
  "config \<Rightarrow> 'm hooks \<Rightarrow> edge_in \<Rightarrow> 'm slave_state \<Rightarrow> 'm outcome" where
  "proc_txn_edge cfg hk inp s =
     (case data_phase cfg hk inp s of
        Inl x \<Rightarrow> Inl x
      | Inr s1 \<Rightarrow> addr_phase cfg hk inp (hready s) s1)"

subsection \<open>The loop\<close>

text \<open>
  The state before the first edge: the locals as \<^verbatim>\<open>_proc_txn\<close> initialises them, and
  the three wires at the default value (\<^verbatim>\<open>_init_bus\<close>, and \<^verbatim>\<open>hrdata\<close> once more at the
  start of \<^verbatim>\<open>_proc_txn\<close>).
\<close>

definition init_state :: "config \<Rightarrow> 'm \<Rightarrow> 'm slave_state" where
  "init_state cfg m0 =
     \<lparr>wr_start = False, rd_start = False, error = False,
      txn_addr = 0, txn_size = WORD, txn_type = READ,
      hready = get_def cfg 1, hresp = get_def cfg (hresp_len cfg),
      hrdata = get_def cfg (hrdata_len cfg), backend = m0\<rparr>"

text \<open>
  The loop runs one body per rising edge, for as long as the clock ticks; an exception
  ends the task. \<open>proc_txn\<close> runs it over the edges given, from a state on.
\<close>

fun proc_txn ::
  "config \<Rightarrow> 'm hooks \<Rightarrow> edge_in list \<Rightarrow> 'm slave_state \<Rightarrow> 'm outcome" where
  "proc_txn cfg hk [] s = Inr s"
| "proc_txn cfg hk (inp # inps) s =
     (case proc_txn_edge cfg hk inp s of
        Inl x \<Rightarrow> Inl x
      | Inr s' \<Rightarrow> proc_txn cfg hk inps s')"

subsection \<open>The acceptance condition, as a predicate on the wires\<close>

text \<open>
  The condition under which an address phase is latched, written on the wires alone: the
  \<^verbatim>\<open>hready\<close> of the cycle before is 1, the four control wires are resolvable, the
  transfer type is neither IDLE nor BUSY, \<^verbatim>\<open>hsel\<close> is 1 when the wire exists, and
  \<^verbatim>\<open>hready_in\<close> is 1 when both \<^verbatim>\<open>hsel\<close> and \<^verbatim>\<open>hready_in\<close> exist.
\<close>

definition acceptance :: "config \<Rightarrow> edge_in \<Rightarrow> sigval \<Rightarrow> bool" where
  "acceptance cfg inp cur_hready =
     (cur_hready = Some 1
      \<and> htrans inp \<noteq> None \<and> hwrite inp \<noteq> None \<and> haddr inp \<noteq> None \<and> hsize inp \<noteq> None
      \<and> (case htrans inp of
            None \<Rightarrow> False
          | Some t \<Rightarrow>
              (case AHBTrans_of t of Inl e \<Rightarrow> False | Inr tr \<Rightarrow> tr \<noteq> IDLE \<and> tr \<noteq> BUSY))
      \<and> (hsel_exist cfg \<longrightarrow> hsel inp = Some 1)
      \<and> (hsel_exist cfg \<and> hready_in_exist cfg \<longrightarrow> hready_in inp = Some 1))"

subsection \<open>A test bench\<close>

text \<open>
  A memory-backed responder on a 4-byte bus with 16 bytes of memory, default value 0 and a
  backpressure generator; an idle cycle, a WORD write to address 4, a WORD write and a WORD
  read to address 16 (out of bounds), a DWORD read (8 bytes on the 4-byte bus), and an idle
  cycle in which the generator denies readiness.
\<close>

definition tb_cfg :: config where
  "tb_cfg = \<lparr>def_val = Some False, has_bp = True, data_width = 4, hrdata_len = 32,
             hresp_len = 1, hsel_exist = False, hready_in_exist = False\<rparr>"

definition tb_mem :: Memory where
  "tb_mem = Memory (replicate 16 0)"

definition tb_idle :: edge_in where
  "tb_idle = \<lparr>htrans = Some 0, hwrite = Some 0, haddr = Some 0, hsize = Some 0,
              hwdata = Some 0, hsel = None, hready_in = None, bp_next = Some True\<rparr>"

definition tb_write :: "int \<Rightarrow> int \<Rightarrow> edge_in" where
  "tb_write a z = tb_idle\<lparr>htrans := Some 2, hwrite := Some 1, haddr := Some a, hsize := Some z\<rparr>"

definition tb_read :: "int \<Rightarrow> int \<Rightarrow> edge_in" where
  "tb_read a z = tb_idle\<lparr>htrans := Some 2, hwrite := Some 0, haddr := Some a, hsize := Some z\<rparr>"

definition tb_deny :: edge_in where
  "tb_deny = tb_idle\<lparr>bp_next := Some False\<rparr>"

text \<open>
  Three states of the test bench: after a first idle edge (ready, nothing pending), after
  the edge that rejected the WORD write to address 16, and after the first edge of the
  error sequence that follows.
\<close>

definition tb_ready :: "Memory slave_state" where
  "tb_ready = (init_state tb_cfg tb_mem)\<lparr>hready := Some 1, hresp := Some 0\<rparr>"

definition tb_rejected :: "Memory slave_state" where
  "tb_rejected =
     \<lparr>wr_start = False, rd_start = False, error = True,
      txn_addr = 16, txn_size = WORD, txn_type = WRITE,
      hready = Some 0, hresp = Some 0, hrdata = Some 0, backend = tb_mem\<rparr>"

definition tb_error1 :: "Memory slave_state" where
  "tb_error1 = tb_rejected\<lparr>hresp := Some 1\<rparr>"

section \<open>Properties\<close>

subsection \<open>Bytes and masks\<close>

lemma from_bytes_le_bytes: "from_bytes (le_bytes n k) = n mod 256 ^ k"
proof (induction k arbitrary: n)
  case 0
  show ?case by simp
next
  case (Suc k)
  have "uint (word_of_int n :: byte) = n mod 256"
    by (simp add: uint_word_of_int)
  moreover have "n mod (256 * 256 ^ k) = 256 * (n div 256 mod 256 ^ k) + n mod 256"
    by (rule zmod_zmult2_eq) simp
  ultimately show ?case using Suc.IH [of "n div 256"] by simp
qed

lemma length_le_bytes: "length (le_bytes n k) = k"
  by (induction k arbitrary: n) simp_all

lemma read_after_write:
  assumes "0 \<le> a" "a + int (length bs) \<le> Memory_size m"
  shows "\<exists>m'. Memory_write m a bs = Inr m' \<and> Memory_read m' a (length bs) = Inr bs
     \<and> Memory_size m' = Memory_size m"
  using assms by (auto simp: Memory_write_def Memory_read_def Memory_size_def min_def)

lemma and_mask_mod: "(n::int) AND (2 ^ k - 1) = n mod 2 ^ k"
  by (simp flip: mask_eq_exp_minus_1 take_bit_eq_mask add: take_bit_eq_mod)

lemma pow2_and_pred: "(2::int) ^ k AND (2 ^ k - 1) = 0"
  by (simp add: and_mask_mod)

lemma and_pred_pow2:
  fixes n :: int
  shows "0 < n \<Longrightarrow> n AND (n - 1) = 0 \<Longrightarrow> \<exists>k. n = 2 ^ k"
proof (induction "nat n" arbitrary: n rule: less_induct)
  case less
  show ?case
  proof (cases "even n")
    case True
    then obtain m where m: "n = 2 * m" by (elim evenE)
    with less.prems have mpos: "0 < m" by simp
    have "(n - 1) div 2 = m - 1" using m by simp
    then have "n AND (n - 1) = 2 * (m AND (m - 1))"
      using m by (subst and_int_rec) simp
    with less.prems have "m AND (m - 1) = 0" by simp
    moreover have "nat m < nat n" using m mpos by simp
    ultimately obtain k where "m = 2 ^ k" using less.hyps [of m] mpos by blast
    then have "n = 2 ^ Suc k" using m by simp
    then show ?thesis by blast
  next
    case False
    then obtain m where m: "n = 2 * m + 1" by (elim oddE)
    have "n AND (n - 1) = 2 * (m AND m)"
      using m by (subst and_int_rec) simp
    with less.prems have "m = 0" by simp
    then have "n = 2 ^ 0" using m by simp
    then show ?thesis by blast
  qed
qed

lemma check_size_raises:
  "(\<exists>e. check_size sz w = Inl e) \<longleftrightarrow> (sz > w \<or> \<not> (\<exists>k. sz = 2 ^ k))"
proof (cases "0 < sz \<and> sz AND (sz - 1) = 0")
  case True
  then show ?thesis using and_pred_pow2 [of sz] by (auto simp: check_size_def)
next
  case False
  have "\<not> (\<exists>k. sz = 2 ^ k)"
  proof
    assume "\<exists>k. sz = 2 ^ k"
    then obtain k where "sz = 2 ^ k" ..
    then have "0 < sz \<and> sz AND (sz - 1) = 0" using pow2_and_pred [of k] by simp
    with False show False ..
  qed
  with False show ?thesis by (auto simp: check_size_def)
qed

lemma mask_value_mod:
  "mask_value (Some v) 0xFF = Inr (v mod 256 ^ 2 ^ BYTE)"
  "mask_value (Some v) 0xFFFF = Inr (v mod 256 ^ 2 ^ HWORD)"
  "mask_value (Some v) 0xFFFFFFFF = Inr (v mod 256 ^ 2 ^ WORD)"
  "mask_value (Some v) 0xFFFFFFFFFFFFFFFF = Inr (v mod 256 ^ 2 ^ DWORD)"
  using and_mask_mod [of v 8] and_mask_mod [of v 16] and_mask_mod [of v 32]
    and_mask_mod [of v 64]
  by (simp_all add: mask_value_def BYTE_def HWORD_def WORD_def DWORD_def)

lemma wr_masked:
  assumes "sz \<in> {BYTE, HWORD, WORD, DWORD}"
  shows "AHBLiteSlaveRAM_wr m addr sz (Some v) =
    (case Memory_write m addr (le_bytes (v mod 256 ^ 2 ^ sz) (2 ^ sz)) of
       Inl e \<Rightarrow> Inl e | Inr m' \<Rightarrow> Inr (m', 0))"
proof -
  have sel: "(if sz = BYTE then mask_value (Some v) 0xFF
            else if sz = HWORD then mask_value (Some v) 0xFFFF
            else if sz = WORD then mask_value (Some v) 0xFFFFFFFF
            else if sz = DWORD then mask_value (Some v) 0xFFFFFFFFFFFFFFFF
            else Inl UnboundLocalError) = Inr (v mod 256 ^ 2 ^ sz)"
    using assms mask_value_mod [of v] by auto
  have fits: "to_bytes (v mod 256 ^ 2 ^ sz) (2 ^ sz) = Inr (le_bytes (v mod 256 ^ 2 ^ sz) (2 ^ sz))"
    by (simp add: to_bytes_def)
  show ?thesis unfolding AHBLiteSlaveRAM_wr_def sel using fits by simp
qed

subsection \<open>Facts about one edge\<close>

lemma new_txn_low: "new_txn cfg inp (Some 0) = Inr False"
  by (simp add: new_txn_def sig_eq_def)

lemma addr_phase_low: "addr_phase cfg hk inp (Some 0) s = Inr s"
  by (simp add: addr_phase_def new_txn_low)

lemma addr_phase_skip:
  "new_txn cfg inp cur \<noteq> Inr True \<Longrightarrow> out_state (addr_phase cfg hk inp cur s) = s"
  by (cases "new_txn cfg inp cur") (auto simp: addr_phase_def out_state_def)

lemma drive_defaults_ready:
  "next_ready cfg inp = Some g \<Longrightarrow>
   drive_defaults cfg inp s
     = Inr (s\<lparr>hready := (if g then Some 1 else get_def cfg 1), hresp := Some (resp_code OKAY)\<rparr>)"
  by (simp add: drive_defaults_def Let_def)

lemma drive_defaults_Inr:
  assumes "drive_defaults cfg inp s = Inr s1"
  shows "\<exists>g. next_ready cfg inp = Some g
     \<and> s1 = s\<lparr>hready := (if g then Some 1 else get_def cfg 1), hresp := Some (resp_code OKAY)\<rparr>"
proof (cases "next_ready cfg inp")
  case None
  with assms show ?thesis by (simp add: drive_defaults_def Let_def)
next
  case (Some g)
  from assms drive_defaults_ready [OF Some, of s] have
    "s1 = s\<lparr>hready := (if g then Some 1 else get_def cfg 1), hresp := Some (resp_code OKAY)\<rparr>"
    by simp
  with Some show ?thesis by blast
qed

lemma complete_pending_keeps:
  assumes "complete_pending cfg hk inp cur s = Inr s1"
  shows "error s1 = error s" and "hready s1 = hready s"
    and "txn_addr s1 = txn_addr s" and "txn_size s1 = txn_size s" and "txn_type s1 = txn_type s"
    and "hresp s = Some (resp_code OKAY) \<Longrightarrow> hresp s1 = Some (resp_code OKAY)"
  using assms
  by (auto simp: complete_pending_def Let_def split: if_splits sum.splits prod.splits)

lemma latch_Inr:
  assumes "latch cfg inp s = Inr s1"
  shows "\<exists>a sz ty. s1 = s\<lparr>txn_addr := a, txn_size := sz, txn_type := ty\<rparr>"
  using assms
  by (auto simp: latch_def Let_def split: option.splits sum.splits)

lemma start_txn_error:
  assumes "start_txn hk s = Inr s'" and "\<not> error s" and "hresp s = Some (resp_code OKAY)"
  shows "error s' \<longrightarrow> hready s' = Some 0 \<and> hresp s' = Some (resp_code OKAY)"
  using assms
  by (cases "txn_type s") (auto simp: start_txn_def Let_def split: if_splits sum.splits)

lemma error_edge_first:
  assumes "error s" and "hready s = Some 0" and "hresp s = Some (resp_code OKAY)"
    and "next_ready cfg inp = Some g"
  shows "proc_txn_edge cfg hk inp s
    = Inr (s\<lparr>hready := Some 0, hresp := Some (resp_code ERROR)\<rparr>)"
  using assms
  by (simp add: proc_txn_edge_def data_phase_def drive_defaults_ready respond_def sig_eq_def
      addr_phase_low)

lemma error_edge_second:
  assumes "error s" and "hready s = Some 0" and "hresp s = Some (resp_code ERROR)"
    and "next_ready cfg inp = Some g"
  shows "proc_txn_edge cfg hk inp s
    = Inr (s\<lparr>hready := Some 1, hresp := Some (resp_code ERROR), error := False\<rparr>)"
  using assms
  by (simp add: proc_txn_edge_def data_phase_def drive_defaults_ready respond_def sig_eq_def
      addr_phase_low)

lemma data_phase_no_error:
  assumes "data_phase cfg hk inp s = Inr s1" and "\<not> error s"
  shows "\<not> error s1 \<and> hresp s1 = Some (resp_code OKAY)"
proof -
  from assms(1) obtain d where d: "drive_defaults cfg inp s = Inr d"
    and r: "respond cfg hk inp (hready s) (hresp s) d = Inr s1"
    by (auto simp: data_phase_def split: sum.splits)
  from drive_defaults_Inr [OF d] assms(2)
  have "\<not> error d" and "hresp d = Some (resp_code OKAY)" by auto
  moreover from r \<open>\<not> error d\<close>
  have "complete_pending cfg hk inp (hready s) d = Inr s1" by (simp add: respond_def)
  ultimately show ?thesis using complete_pending_keeps(1,6) by metis
qed

lemma addr_phase_error:
  assumes "addr_phase cfg hk inp cur s = Inr s'" and "\<not> error s"
    and "hresp s = Some (resp_code OKAY)"
  shows "error s' \<longrightarrow> hready s' = Some 0 \<and> hresp s' = Some (resp_code OKAY)"
proof (cases "new_txn cfg inp cur = Inr True")
  case True
  with assms(1) obtain l where l: "latch cfg inp s = Inr l" and st: "start_txn hk l = Inr s'"
    by (auto simp: addr_phase_def split: sum.splits)
  from latch_Inr [OF l] assms(2,3) have "\<not> error l" "hresp l = Some (resp_code OKAY)" by auto
  with st show ?thesis by (rule start_txn_error)
next
  case False
  then have "out_state (addr_phase cfg hk inp cur s) = s" by (rule addr_phase_skip)
  with assms show ?thesis by (simp add: out_state_def)
qed

lemma edge_inv:
  assumes "proc_txn_edge cfg hk inp s = Inr s'"
    and "error s \<longrightarrow> hready s = Some 0
           \<and> (hresp s = Some (resp_code OKAY) \<or> hresp s = Some (resp_code ERROR))"
  shows "error s' \<longrightarrow> hready s' = Some 0
           \<and> (hresp s' = Some (resp_code OKAY) \<or> hresp s' = Some (resp_code ERROR))"
proof (cases "error s")
  case True
  from assms(1) obtain d where "drive_defaults cfg inp s = Inr d"
    by (auto simp: proc_txn_edge_def data_phase_def split: sum.splits)
  then obtain g where g: "next_ready cfg inp = Some g" using drive_defaults_Inr by blast
  from True assms(2) consider "hresp s = Some (resp_code OKAY)" | "hresp s = Some (resp_code ERROR)"
    by blast
  then show ?thesis
  proof cases
    case 1
    with True assms(2) g have "proc_txn_edge cfg hk inp s
      = Inr (s\<lparr>hready := Some 0, hresp := Some (resp_code ERROR)\<rparr>)"
      by (simp add: error_edge_first)
    with assms(1) show ?thesis by auto
  next
    case 2
    with True assms(2) g have "proc_txn_edge cfg hk inp s
      = Inr (s\<lparr>hready := Some 1, hresp := Some (resp_code ERROR), error := False\<rparr>)"
      by (simp add: error_edge_second)
    with assms(1) show ?thesis by auto
  qed
next
  case False
  from assms(1) obtain s1 where d: "data_phase cfg hk inp s = Inr s1"
    and a: "addr_phase cfg hk inp (hready s) s1 = Inr s'"
    by (auto simp: proc_txn_edge_def split: sum.splits)
  from data_phase_no_error [OF d False] a show ?thesis
    using addr_phase_error by blast
qed

lemma run_inv:
  assumes "proc_txn cfg hk inps s = Inr s'"
    and "error s \<longrightarrow> hready s = Some 0
           \<and> (hresp s = Some (resp_code OKAY) \<or> hresp s = Some (resp_code ERROR))"
  shows "error s' \<longrightarrow> hready s' = Some 0
           \<and> (hresp s' = Some (resp_code OKAY) \<or> hresp s' = Some (resp_code ERROR))"
  using assms
proof (induction inps arbitrary: s)
  case Nil
  then show ?case by simp
next
  case (Cons inp inps)
  from Cons.prems(1) obtain m where m: "proc_txn_edge cfg hk inp s = Inr m"
    and r: "proc_txn cfg hk inps m = Inr s'"
    by (auto split: sum.splits)
  from edge_inv [OF m Cons.prems(2)] show ?case by (rule Cons.IH [OF r])
qed

lemma reach_inv:
  assumes "proc_txn cfg hk inps (init_state cfg m0) = Inr s" and "error s"
  shows "hready s = Some 0"
    and "hresp s = Some (resp_code OKAY) \<or> hresp s = Some (resp_code ERROR)"
  using run_inv [OF assms(1)] assms(2) by (simp_all add: init_state_def)

lemma edge_bp_exhausted:
  "next_ready cfg inp = None \<Longrightarrow>
   proc_txn_edge cfg hk inp s
     = Inl (StopIteration, s\<lparr>hready := get_def cfg 1, hresp := Some (resp_code OKAY)\<rparr>)"
  by (simp add: proc_txn_edge_def data_phase_def drive_defaults_def Let_def)

lemma new_txn_True_hready: "new_txn cfg inp cur = Inr True \<Longrightarrow> cur = Some 1"
  by (cases cur) (auto simp: new_txn_def sig_eq_def split: if_splits)

lemma edge_latched:
  assumes "data_phase cfg hk inp s0 = Inr s" and "new_txn cfg inp (hready s0) = Inr True"
    and "latch cfg inp s = Inr l"
  shows "proc_txn_edge cfg hk inp s0 = start_txn hk l"
  using assms by (simp add: proc_txn_edge_def addr_phase_def)

lemma start_txn_reject_write:
  assumes "txn_type l = WRITE" and "\<not> chk_wr hk (backend l) (txn_addr l) (txn_size l)"
  shows "start_txn hk l
    = Inr (l\<lparr>hready := Some 0, hrdata := Some 0, error := True, wr_start := False\<rparr>)"
  using assms by (simp add: start_txn_def Let_def)

lemma start_txn_reject_read:
  assumes "txn_type l = READ" and "\<not> chk_rd hk (backend l) (txn_addr l) (txn_size l)"
  shows "start_txn hk l = Inr (l\<lparr>hready := Some 0, error := True\<rparr>)"
  using assms by (simp add: start_txn_def Let_def)

lemma accepted_okay:
  assumes "proc_txn cfg hk inps (init_state cfg m0) = Inr s0"
    and "data_phase cfg hk inp s0 = Inr s" and "new_txn cfg inp (hready s0) = Inr True"
    and "latch cfg inp s = Inr l"
  shows "\<not> error l \<and> hresp l = Some (resp_code OKAY)"
proof -
  from assms(3) have "hready s0 = Some 1" by (rule new_txn_True_hready)
  with reach_inv(1) [OF assms(1)] have "\<not> error s0" by auto
  from data_phase_no_error [OF assms(2) this] latch_Inr [OF assms(4)]
  show ?thesis by auto
qed

lemma no_pending_write:
  assumes "\<not> wr_start s"
  shows "complete_pending cfg hk inp cur s
    = Inr (if rd_start s \<and> truthy cur
           then s\<lparr>rd_start := False, hrdata := get_def cfg (hrdata_len cfg)\<rparr> else s)"
  using assms by (simp add: complete_pending_def Let_def)

subsection \<open>Runs of the test bench\<close>

lemmas edge_defs = proc_txn_edge_def data_phase_def drive_defaults_def next_ready_def respond_def
    complete_pending_def addr_phase_def new_txn_def sig_eq_def check_inputs_def check_valid_txn_def
    AHBTrans_of_def AHBSize_of_def AHBWrite_of_def latch_def check_size_def start_txn_def
    get_def_def truthy_def Let_def BYTE_def HWORD_def WORD_def DWORD_def

lemmas tb_defs = AHBLiteSlaveRAM_hooks_def AHBLiteSlaveRAM_chk_wr_def AHBLiteSlaveRAM_chk_rd_def
    init_state_def tb_cfg_def tb_mem_def tb_idle_def tb_write_def tb_read_def tb_deny_def
    Memory_size_def tb_ready_def tb_rejected_def tb_error1_def

lemma tb_run_ready:
  "proc_txn tb_cfg AHBLiteSlaveRAM_hooks [tb_idle] (init_state tb_cfg tb_mem) = Inr tb_ready"
  by (simp add: edge_defs tb_defs)

lemma tb_run_rejected:
  "proc_txn tb_cfg AHBLiteSlaveRAM_hooks [tb_idle, tb_write 16 2] (init_state tb_cfg tb_mem)
   = Inr tb_rejected"
  by (simp add: edge_defs tb_defs)

lemma tb_run_error1:
  "proc_txn tb_cfg AHBLiteSlaveRAM_hooks [tb_idle, tb_write 16 2, tb_idle]
     (init_state tb_cfg tb_mem) = Inr tb_error1"
  by (simp add: edge_defs tb_defs)

subsection \<open>The hooks of the memory-backed responder\<close>

text \<open>
  Claim C1. For each of the four size classes and an access that lies inside the memory,
  \<^verbatim>\<open>_wr(addr, s, v)\<close> succeeds and a following \<^verbatim>\<open>_rd(addr, s)\<close> on the memory it
  leaves returns \<open>v\<close> masked to the byte width of the transfer, \<open>v mod 2 ^ (8 * 2 ^ s)\<close>.
  The bus width plays no part in the two hooks, so the law holds for every bus width.
\<close>

theorem wr_rd_round_trip:
  assumes "sz \<in> {BYTE, HWORD, WORD, DWORD}"
    and "0 \<le> addr" and "addr + 2 ^ sz \<le> Memory_size m"
  shows "\<exists>m'. AHBLiteSlaveRAM_wr m addr sz (Some v) = Inr (m', 0)
     \<and> AHBLiteSlaveRAM_rd m' addr sz = Inr (v mod 2 ^ (8 * 2 ^ sz))"
proof -
  let ?bs = "le_bytes (v mod 256 ^ 2 ^ sz) (2 ^ sz)"
  have len: "length ?bs = 2 ^ sz" by (rule length_le_bytes)
  from assms(2,3) have "addr + int (length ?bs) \<le> Memory_size m"
    by (simp add: len)
  with assms(2) obtain m' where w: "Memory_write m addr ?bs = Inr m'"
    and r: "Memory_read m' addr (length ?bs) = Inr ?bs"
    using read_after_write by blast
  have pw: "(256::int) ^ 2 ^ sz = 2 ^ (8 * 2 ^ sz)"
    by (simp add: power_mult)
  have "AHBLiteSlaveRAM_wr m addr sz (Some v) = Inr (m', 0)"
    using w by (simp add: wr_masked [OF assms(1)])
  moreover have "AHBLiteSlaveRAM_rd m' addr sz = Inr (v mod 2 ^ (8 * 2 ^ sz))"
    using r by (simp add: AHBLiteSlaveRAM_rd_def len from_bytes_le_bytes flip: pw)
  ultimately show ?thesis by blast
qed

theorem wr_rd_round_trip_witness:
  "WORD \<in> {BYTE, HWORD, WORD, DWORD} \<and> (0::int) \<le> 4
   \<and> 4 + 2 ^ WORD \<le> Memory_size tb_mem
   \<and> (\<exists>m'. AHBLiteSlaveRAM_wr tb_mem 4 WORD (Some 0x1DEADBEEF) = Inr (m', 0)
         \<and> AHBLiteSlaveRAM_rd m' 4 WORD = Inr 0xDEADBEEF)"
  using wr_rd_round_trip [of WORD 4 tb_mem "0x1DEADBEEF"]
  by (simp add: WORD_def Memory_size_def tb_mem_def)

text \<open>
  Claim C7, as amended. \<^verbatim>\<open>_chk_rd\<close> and \<^verbatim>\<open>_chk_wr\<close> succeed exactly when
  \<open>addr + 2 ^ size\<close> is at most the memory size: the sum may be equal to the size, which
  is the access to the last bytes of the memory. The answer is computed from the size of
  the memory alone; no read or write of the backend takes place.
\<close>

theorem chk_exact:
  "AHBLiteSlaveRAM_chk_rd m addr sz = (addr + 2 ^ sz \<le> Memory_size m)
   \<and> AHBLiteSlaveRAM_chk_wr m addr sz = (addr + 2 ^ sz \<le> Memory_size m)"
  by (auto simp: AHBLiteSlaveRAM_chk_rd_def AHBLiteSlaveRAM_chk_wr_def)

text \<open>
  Claim C7, as stated, fails for the WORD access to address 12 of a 16-byte memory: the
  hook accepts it, and \<open>12 + 4 = 16\<close> does not lie in the half-open interval from 0 to 16.
\<close>

theorem chk_half_open_counterexample:
  "\<not> (AHBLiteSlaveRAM_chk_rd tb_mem 12 WORD
        \<longleftrightarrow> 0 \<le> (12::int) + 2 ^ WORD \<and> (12::int) + 2 ^ WORD < Memory_size tb_mem)"
  by (simp add: AHBLiteSlaveRAM_chk_rd_def WORD_def Memory_size_def tb_mem_def)

text \<open>
  Claim C9. \<^verbatim>\<open>AHBLiteSlaveRAM._wr\<close> fails with \<^verbatim>\<open>UnboundLocalError\<close> exactly for
  the size classes other than BYTE, HWORD, WORD and DWORD, whatever the address and the
  value; the failure comes before the backend is written, so no write takes place.
\<close>

theorem wr_unbound_local:
  "(AHBLiteSlaveRAM_wr m addr sz v = Inl UnboundLocalError)
     = (sz \<notin> {BYTE, HWORD, WORD, DWORD})"
  by (auto simp: AHBLiteSlaveRAM_wr_def mask_value_def to_bytes_def Memory_write_def
      split: option.splits sum.splits if_splits)

subsection \<open>The error sequence\<close>

text \<open>
  Claim C2. In a state that a run from the initial state reaches with the error flag set,
  the response driven last is OKAY or ERROR. If it is OKAY, the next edge drives
  \<^verbatim>\<open>hready = 0\<close> and \<^verbatim>\<open>hresp = ERROR\<close>, keeps the flag and changes nothing else, and
  the edge after it drives \<^verbatim>\<open>hready = 1\<close> and \<^verbatim>\<open>hresp = ERROR\<close> and clears the flag.
  If it is ERROR, the edge is that second one. The edges are any two at which the
  backpressure generator, if there is one, yields a value.
\<close>

theorem error_sequence:
  assumes "proc_txn cfg hk inps (init_state cfg m0) = Inr s" and "error s"
    and "next_ready cfg inp1 \<noteq> None" and "next_ready cfg inp2 \<noteq> None"
  shows "(hresp s = Some (resp_code OKAY) \<or> hresp s = Some (resp_code ERROR))
    \<and> (hresp s = Some (resp_code OKAY) \<longrightarrow>
          proc_txn_edge cfg hk inp1 s
            = Inr (s\<lparr>hready := Some 0, hresp := Some (resp_code ERROR)\<rparr>)
          \<and> proc_txn_edge cfg hk inp2 (s\<lparr>hready := Some 0, hresp := Some (resp_code ERROR)\<rparr>)
            = Inr (s\<lparr>hready := Some 1, hresp := Some (resp_code ERROR), error := False\<rparr>))
    \<and> (hresp s = Some (resp_code ERROR) \<longrightarrow>
          proc_txn_edge cfg hk inp2 s
            = Inr (s\<lparr>hready := Some 1, hresp := Some (resp_code ERROR), error := False\<rparr>))"
proof -
  from assms(3,4) obtain g1 g2 where g: "next_ready cfg inp1 = Some g1" "next_ready cfg inp2 = Some g2"
    by auto
  have low: "hready s = Some 0" using assms(1,2) by (rule reach_inv(1))
  have resp: "hresp s = Some (resp_code OKAY) \<or> hresp s = Some (resp_code ERROR)"
    using assms(1,2) by (rule reach_inv(2))
  have first: "proc_txn_edge cfg hk inp1 s
      = Inr (s\<lparr>hready := Some 0, hresp := Some (resp_code ERROR)\<rparr>)"
    if "hresp s = Some (resp_code OKAY)"
    using assms(2) low that g(1) by (rule error_edge_first)
  have second: "proc_txn_edge cfg hk inp2 (s\<lparr>hready := Some 0, hresp := Some (resp_code ERROR)\<rparr>)
      = Inr (s\<lparr>hready := Some 1, hresp := Some (resp_code ERROR), error := False\<rparr>)"
    using error_edge_second [of "s\<lparr>hready := Some 0, hresp := Some (resp_code ERROR)\<rparr>" cfg inp2 g2 hk]
      assms(2) g(2) by simp
  have direct: "proc_txn_edge cfg hk inp2 s
      = Inr (s\<lparr>hready := Some 1, hresp := Some (resp_code ERROR), error := False\<rparr>)"
    if "hresp s = Some (resp_code ERROR)"
    using assms(2) low that g(2) by (rule error_edge_second)
  from resp first second direct show ?thesis by blast
qed

text \<open>
  The run of the test bench into the rejected write, and the two edges after it.
\<close>

theorem error_sequence_witness:
  "proc_txn tb_cfg AHBLiteSlaveRAM_hooks [tb_idle, tb_write 16 2] (init_state tb_cfg tb_mem)
     = Inr tb_rejected
   \<and> error tb_rejected \<and> next_ready tb_cfg tb_deny \<noteq> None \<and> next_ready tb_cfg tb_idle \<noteq> None
   \<and> hresp tb_rejected = Some (resp_code OKAY)
   \<and> proc_txn_edge tb_cfg AHBLiteSlaveRAM_hooks tb_deny tb_rejected
       = Inr (tb_rejected\<lparr>hready := Some 0, hresp := Some (resp_code ERROR)\<rparr>)
   \<and> proc_txn_edge tb_cfg AHBLiteSlaveRAM_hooks tb_idle
         (tb_rejected\<lparr>hready := Some 0, hresp := Some (resp_code ERROR)\<rparr>)
       = Inr (tb_rejected\<lparr>hready := Some 1, hresp := Some (resp_code ERROR), error := False\<rparr>)"
proof -
  have e: "error tb_rejected" and h: "hresp tb_rejected = Some (resp_code OKAY)"
    by (simp_all add: tb_rejected_def)
  have n: "next_ready tb_cfg tb_deny \<noteq> None" "next_ready tb_cfg tb_idle \<noteq> None"
    by (simp_all add: next_ready_def tb_cfg_def tb_deny_def tb_idle_def)
  from error_sequence [OF tb_run_rejected e n] tb_run_rejected e n h show ?thesis by blast
qed

text \<open>
  Claim C5. In a state that a run from the initial state reaches with the error flag set,
  the condition of a new transaction is false at the next edge, for every input, and the
  edge (whether it completes or raises) leaves the latched address, size and direction and
  the two pending flags as they were.
\<close>

theorem no_latch_during_error:
  assumes "proc_txn cfg hk inps (init_state cfg m0) = Inr s" and "error s"
  shows "new_txn cfg inp (hready s) = Inr False
    \<and> txn_addr (out_state (proc_txn_edge cfg hk inp s)) = txn_addr s
    \<and> txn_size (out_state (proc_txn_edge cfg hk inp s)) = txn_size s
    \<and> txn_type (out_state (proc_txn_edge cfg hk inp s)) = txn_type s
    \<and> rd_start (out_state (proc_txn_edge cfg hk inp s)) = rd_start s
    \<and> wr_start (out_state (proc_txn_edge cfg hk inp s)) = wr_start s"
proof -
  have low: "hready s = Some 0" using assms by (rule reach_inv(1))
  have resp: "hresp s = Some (resp_code OKAY) \<or> hresp s = Some (resp_code ERROR)"
    using assms by (rule reach_inv(2))
  have "\<exists>h r e. out_state (proc_txn_edge cfg hk inp s) = s\<lparr>hready := h, hresp := r, error := e\<rparr>"
  proof (cases "next_ready cfg inp")
    case None
    then have "out_state (proc_txn_edge cfg hk inp s)
      = s\<lparr>hready := get_def cfg 1, hresp := Some (resp_code OKAY), error := error s\<rparr>"
      by (simp add: edge_bp_exhausted out_state_def)
    then show ?thesis by blast
  next
    case (Some g)
    from resp show ?thesis
    proof
      assume "hresp s = Some (resp_code OKAY)"
      with assms(2) low Some have "out_state (proc_txn_edge cfg hk inp s)
        = s\<lparr>hready := Some 0, hresp := Some (resp_code ERROR), error := error s\<rparr>"
        by (simp add: error_edge_first out_state_def)
      then show ?thesis by blast
    next
      assume "hresp s = Some (resp_code ERROR)"
      with assms(2) low Some have "out_state (proc_txn_edge cfg hk inp s)
        = s\<lparr>hready := Some 1, hresp := Some (resp_code ERROR), error := False\<rparr>"
        by (simp add: error_edge_second out_state_def)
      then show ?thesis by blast
    qed
  qed
  then obtain h r e where "out_state (proc_txn_edge cfg hk inp s) = s\<lparr>hready := h, hresp := r, error := e\<rparr>"
    by blast
  then show ?thesis by (simp add: low new_txn_low)
qed

text \<open>
  In the test bench, a WORD write to address 4 meets the acceptance condition on the wires,
  and is not latched at the edge after the rejected write.
\<close>

theorem no_latch_during_error_witness:
  "proc_txn tb_cfg AHBLiteSlaveRAM_hooks [tb_idle, tb_write 16 2] (init_state tb_cfg tb_mem)
     = Inr tb_rejected
   \<and> error tb_rejected
   \<and> acceptance tb_cfg (tb_write 4 2) (Some 1)
   \<and> new_txn tb_cfg (tb_write 4 2) (hready tb_rejected) = Inr False
   \<and> txn_addr (out_state (proc_txn_edge tb_cfg AHBLiteSlaveRAM_hooks (tb_write 4 2) tb_rejected))
       = txn_addr tb_rejected"
proof -
  have e: "error tb_rejected" by (simp add: tb_rejected_def)
  have a: "acceptance tb_cfg (tb_write 4 2) (Some 1)"
    by (simp add: acceptance_def tb_write_def tb_idle_def tb_cfg_def AHBTrans_of_def)
  from no_latch_during_error [OF tb_run_rejected e, of "tb_write 4 2"] tb_run_rejected e a
  show ?thesis by blast
qed

subsection \<open>Rejected transfers and the backpressure generator\<close>

lemma latch_backend: "backend (out_state (latch cfg inp s)) = backend s"
  by (simp add: latch_def out_state_def Let_def split: option.splits sum.splits)

lemma start_txn_backend: "backend (out_state (start_txn hk s)) = backend s"
  by (simp add: start_txn_def out_state_def Let_def split: sum.splits)

lemma addr_phase_backend: "backend (out_state (addr_phase cfg hk inp cur s)) = backend s"
proof (cases "new_txn cfg inp cur = Inr True")
  case True
  show ?thesis
  proof (cases "latch cfg inp s")
    case (Inl x)
    with True latch_backend [of cfg inp s] show ?thesis by (simp add: addr_phase_def)
  next
    case (Inr l)
    with True latch_backend [of cfg inp s] start_txn_backend [of hk l]
    show ?thesis by (simp add: addr_phase_def out_state_def)
  qed
next
  case False
  then show ?thesis by (simp add: addr_phase_skip)
qed

lemma data_phase_backend:
  assumes "\<not> wr_start s"
  shows "backend (out_state (data_phase cfg hk inp s)) = backend s
    \<and> \<not> wr_start (out_state (data_phase cfg hk inp s))"
proof (cases "next_ready cfg inp")
  case None
  then show ?thesis using assms
    by (simp add: data_phase_def drive_defaults_def Let_def out_state_def)
next
  case (Some g)
  show ?thesis using assms
    by (simp add: data_phase_def drive_defaults_ready [OF Some] respond_def no_pending_write
        sig_eq_def out_state_def split: option.splits)
qed

lemma edge_backend:
  assumes "\<not> wr_start s"
  shows "backend (out_state (proc_txn_edge cfg hk inp s)) = backend s"
proof (cases "data_phase cfg hk inp s")
  case (Inl x)
  with data_phase_backend [OF assms, of cfg hk inp] show ?thesis
    by (simp add: proc_txn_edge_def)
next
  case (Inr s1)
  with data_phase_backend [OF assms, of cfg hk inp] addr_phase_backend [of cfg hk inp "hready s" s1]
  show ?thesis by (simp add: proc_txn_edge_def out_state_def)
qed


lemma tb_data_phase:
  "data_phase tb_cfg AHBLiteSlaveRAM_hooks (tb_write a z) tb_ready = Inr tb_ready"
  "data_phase tb_cfg AHBLiteSlaveRAM_hooks (tb_read a z) tb_ready = Inr tb_ready"
  by (simp_all add: edge_defs tb_defs)

lemma tb_new_txn:
  "new_txn tb_cfg (tb_write a z) (hready tb_ready) = Inr True"
  "new_txn tb_cfg (tb_read a z) (hready tb_ready) = Inr True"
  by (simp_all add: edge_defs tb_defs)

lemma tb_latch:
  "latch tb_cfg (tb_write 16 2) tb_ready
     = Inr (tb_ready\<lparr>txn_addr := 16, txn_size := WORD, txn_type := WRITE\<rparr>)"
  "latch tb_cfg (tb_read 16 2) tb_ready
     = Inr (tb_ready\<lparr>txn_addr := 16, txn_size := WORD, txn_type := READ\<rparr>)"
  by (simp_all add: edge_defs tb_defs)

lemma tb_reject:
  "\<not> chk_wr AHBLiteSlaveRAM_hooks (backend tb_ready) 16 WORD"
  "\<not> chk_rd AHBLiteSlaveRAM_hooks (backend tb_ready) 16 WORD"
  by (simp_all add: edge_defs tb_defs)

lemma tb_next_ready:
  "next_ready tb_cfg tb_idle = Some True" "next_ready tb_cfg tb_deny = Some False"
  "next_ready tb_cfg (tb_write a z) = Some True" "next_ready tb_cfg (tb_read a z) = Some True"
  by (simp_all add: next_ready_def tb_defs)

text \<open>
  Claim C6. At an edge of a run from the initial state where a WRITE address phase is
  latched and \<^verbatim>\<open>_chk_wr\<close> rejects it, the edge ends with \<^verbatim>\<open>hready = 0\<close>,
  \<^verbatim>\<open>hrdata = 0\<close>, the error flag set and the pending-write flag unset, on top of the
  latched transaction. The write is never dispatched: the two edges of the error sequence
  that follow leave the backend and the unset flag as they are, and so does the edge after
  them as far as the backend goes, since \<^verbatim>\<open>_wr\<close> is called for a pending write only.
\<close>

theorem rejected_write:
  assumes reach: "proc_txn cfg hk inps (init_state cfg m0) = Inr s0"
    and dp: "data_phase cfg hk inp s0 = Inr s"
    and acc: "new_txn cfg inp (hready s0) = Inr True"
    and l: "latch cfg inp s = Inr l"
    and w: "txn_type l = WRITE"
    and rej: "\<not> chk_wr hk (backend l) (txn_addr l) (txn_size l)"
    and n: "next_ready cfg inp1 \<noteq> None" "next_ready cfg inp2 \<noteq> None"
  shows "\<exists>r. proc_txn_edge cfg hk inp s0 = Inr r
    \<and> r = l\<lparr>hready := Some 0, hrdata := Some 0, error := True, wr_start := False\<rparr>
    \<and> proc_txn cfg hk [inp1, inp2] r
        = Inr (r\<lparr>hready := Some 1, hresp := Some (resp_code ERROR), error := False\<rparr>)
    \<and> (\<forall>inp3. backend (out_state (proc_txn_edge cfg hk inp3
          (r\<lparr>hready := Some 1, hresp := Some (resp_code ERROR), error := False\<rparr>))) = backend l)"
proof -
  define r where "r = l\<lparr>hready := Some 0, hrdata := Some 0, error := True, wr_start := False\<rparr>"
  from n obtain g1 g2 where g: "next_ready cfg inp1 = Some g1" "next_ready cfg inp2 = Some g2"
    by auto
  have edge: "proc_txn_edge cfg hk inp s0 = Inr r"
    using edge_latched [OF dp acc l] start_txn_reject_write [OF w rej] by (simp add: r_def)
  from accepted_okay [OF reach dp acc l] have ok: "hresp r = Some (resp_code OKAY)"
    by (simp add: r_def)
  have r_facts: "error r" "hready r = Some 0" "\<not> wr_start r" "backend r = backend l"
    by (simp_all add: r_def)
  have e1: "proc_txn_edge cfg hk inp1 r
      = Inr (r\<lparr>hready := Some 0, hresp := Some (resp_code ERROR)\<rparr>)"
    using r_facts(1,2) ok g(1) by (rule error_edge_first)
  have e2: "proc_txn_edge cfg hk inp2 (r\<lparr>hready := Some 0, hresp := Some (resp_code ERROR)\<rparr>)
      = Inr (r\<lparr>hready := Some 1, hresp := Some (resp_code ERROR), error := False\<rparr>)"
    using error_edge_second [of "r\<lparr>hready := Some 0, hresp := Some (resp_code ERROR)\<rparr>" cfg inp2 g2 hk]
      r_facts(1) g(2) by simp
  have run: "proc_txn cfg hk [inp1, inp2] r
      = Inr (r\<lparr>hready := Some 1, hresp := Some (resp_code ERROR), error := False\<rparr>)"
    using e1 e2 by simp
  have later: "backend (out_state (proc_txn_edge cfg hk inp3
      (r\<lparr>hready := Some 1, hresp := Some (resp_code ERROR), error := False\<rparr>))) = backend l"
    for inp3
    using edge_backend [of "r\<lparr>hready := Some 1, hresp := Some (resp_code ERROR), error := False\<rparr>"
        cfg hk inp3] r_facts(3,4) by simp
  from edge run later show ?thesis unfolding r_def by blast
qed

text \<open>
  The WORD write to address 16 of the test bench, after one idle edge.
\<close>

theorem rejected_write_witness:
  "proc_txn tb_cfg AHBLiteSlaveRAM_hooks [tb_idle] (init_state tb_cfg tb_mem) = Inr tb_ready
   \<and> data_phase tb_cfg AHBLiteSlaveRAM_hooks (tb_write 16 2) tb_ready = Inr tb_ready
   \<and> new_txn tb_cfg (tb_write 16 2) (hready tb_ready) = Inr True
   \<and> latch tb_cfg (tb_write 16 2) tb_ready
       = Inr (tb_ready\<lparr>txn_addr := 16, txn_size := WORD, txn_type := WRITE\<rparr>)
   \<and> \<not> chk_wr AHBLiteSlaveRAM_hooks (backend tb_ready) 16 WORD
   \<and> proc_txn_edge tb_cfg AHBLiteSlaveRAM_hooks (tb_write 16 2) tb_ready = Inr tb_rejected
   \<and> proc_txn tb_cfg AHBLiteSlaveRAM_hooks [tb_idle, tb_deny] tb_rejected
       = Inr (tb_rejected\<lparr>hready := Some 1, hresp := Some (resp_code ERROR), error := False\<rparr>)"
proof -
  have eq: "tb_ready\<lparr>txn_addr := 16, txn_size := WORD, txn_type := WRITE\<rparr>
      \<lparr>hready := Some 0, hrdata := Some 0, error := True, wr_start := False\<rparr> = tb_rejected"
    by (simp add: tb_defs)
  from rejected_write [OF tb_run_ready tb_data_phase(1) tb_new_txn(1) tb_latch(1), of tb_idle tb_deny]
    tb_reject(1) tb_next_ready(1,2)
  have "proc_txn_edge tb_cfg AHBLiteSlaveRAM_hooks (tb_write 16 2) tb_ready = Inr tb_rejected
    \<and> proc_txn tb_cfg AHBLiteSlaveRAM_hooks [tb_idle, tb_deny] tb_rejected
       = Inr (tb_rejected\<lparr>hready := Some 1, hresp := Some (resp_code ERROR), error := False\<rparr>)"
    by (simp add: eq)
  with tb_run_ready tb_data_phase(1) tb_new_txn(1) tb_latch(1) tb_reject(1) show ?thesis
    by blast
qed


text \<open>
  Claim C8, as amended. Whatever the backpressure generator yields at the edge
  (\<open>g\<close> is its answer), in a state reached from the initial state: on the first edge of
  an error sequence \<^verbatim>\<open>hready\<close> is driven 0; on the second edge of the sequence it is
  driven 1; and on an edge where a latched write is rejected by \<^verbatim>\<open>_chk_wr\<close> it is
  driven 0.
\<close>

theorem readiness_forced:
  assumes reach: "proc_txn cfg hk inps (init_state cfg m0) = Inr s"
    and g: "next_ready cfg inp = Some g"
  shows "(error s \<and> hresp s = Some (resp_code OKAY) \<longrightarrow>
            (\<exists>s'. proc_txn_edge cfg hk inp s = Inr s' \<and> hready s' = Some 0))
    \<and> (error s \<and> hresp s = Some (resp_code ERROR) \<longrightarrow>
            (\<exists>s'. proc_txn_edge cfg hk inp s = Inr s' \<and> hready s' = Some 1))
    \<and> (\<forall>s1 l. data_phase cfg hk inp s = Inr s1 \<and> new_txn cfg inp (hready s) = Inr True
            \<and> latch cfg inp s1 = Inr l \<and> txn_type l = WRITE
            \<and> \<not> chk_wr hk (backend l) (txn_addr l) (txn_size l) \<longrightarrow>
            (\<exists>s'. proc_txn_edge cfg hk inp s = Inr s' \<and> hready s' = Some 0))"
proof (intro conjI impI allI)
  assume a: "error s \<and> hresp s = Some (resp_code OKAY)"
  then have "hready s = Some 0" using reach_inv(1) [OF reach] by blast
  with a g have "proc_txn_edge cfg hk inp s
      = Inr (s\<lparr>hready := Some 0, hresp := Some (resp_code ERROR)\<rparr>)"
    by (simp add: error_edge_first)
  then show "\<exists>s'. proc_txn_edge cfg hk inp s = Inr s' \<and> hready s' = Some 0" by simp
next
  assume a: "error s \<and> hresp s = Some (resp_code ERROR)"
  then have "hready s = Some 0" using reach_inv(1) [OF reach] by blast
  with a g have "proc_txn_edge cfg hk inp s
      = Inr (s\<lparr>hready := Some 1, hresp := Some (resp_code ERROR), error := False\<rparr>)"
    by (simp add: error_edge_second)
  then show "\<exists>s'. proc_txn_edge cfg hk inp s = Inr s' \<and> hready s' = Some 1" by simp
next
  fix s1 l
  assume a: "data_phase cfg hk inp s = Inr s1 \<and> new_txn cfg inp (hready s) = Inr True
            \<and> latch cfg inp s1 = Inr l \<and> txn_type l = WRITE
            \<and> \<not> chk_wr hk (backend l) (txn_addr l) (txn_size l)"
  then have "proc_txn_edge cfg hk inp s = start_txn hk l" by (simp add: edge_latched)
  with a have "proc_txn_edge cfg hk inp s
      = Inr (l\<lparr>hready := Some 0, hrdata := Some 0, error := True, wr_start := False\<rparr>)"
    by (simp add: start_txn_reject_write)
  then show "\<exists>s'. proc_txn_edge cfg hk inp s = Inr s' \<and> hready s' = Some 0" by simp
qed

text \<open>
  In the test bench the first error edge is low although the generator grants, and the
  second is high although the generator denies.
\<close>

theorem readiness_forced_witness:
  "proc_txn tb_cfg AHBLiteSlaveRAM_hooks [tb_idle, tb_write 16 2] (init_state tb_cfg tb_mem)
     = Inr tb_rejected
   \<and> next_ready tb_cfg tb_idle = Some True
   \<and> error tb_rejected \<and> hresp tb_rejected = Some (resp_code OKAY)
   \<and> (\<exists>s'. proc_txn_edge tb_cfg AHBLiteSlaveRAM_hooks tb_idle tb_rejected = Inr s'
          \<and> hready s' = Some 0)
   \<and> proc_txn tb_cfg AHBLiteSlaveRAM_hooks [tb_idle, tb_write 16 2, tb_idle]
       (init_state tb_cfg tb_mem) = Inr tb_error1
   \<and> next_ready tb_cfg tb_deny = Some False
   \<and> error tb_error1 \<and> hresp tb_error1 = Some (resp_code ERROR)
   \<and> (\<exists>s'. proc_txn_edge tb_cfg AHBLiteSlaveRAM_hooks tb_deny tb_error1 = Inr s'
          \<and> hready s' = Some 1)"
proof -
  have f: "error tb_rejected" "hresp tb_rejected = Some (resp_code OKAY)"
    "error tb_error1" "hresp tb_error1 = Some (resp_code ERROR)"
    by (simp_all add: tb_rejected_def tb_error1_def)
  from readiness_forced [OF tb_run_rejected tb_next_ready(1)] f(1,2)
  have a: "\<exists>s'. proc_txn_edge tb_cfg AHBLiteSlaveRAM_hooks tb_idle tb_rejected = Inr s'
          \<and> hready s' = Some 0" by blast
  from readiness_forced [OF tb_run_error1 tb_next_ready(2)] f(3,4)
  have b: "\<exists>s'. proc_txn_edge tb_cfg AHBLiteSlaveRAM_hooks tb_deny tb_error1 = Inr s'
          \<and> hready s' = Some 1" by blast
  from a b f tb_run_rejected tb_run_error1 tb_next_ready(1,2) show ?thesis by blast
qed

text \<open>
  Claim C8, as stated, fails on the second edge of the error sequence of the test bench:
  the error flag is set at the start of the edge, the generator denies readiness, and the
  edge drives \<^verbatim>\<open>hready = 1\<close>, not 0.
\<close>

theorem readiness_low_counterexample:
  "proc_txn tb_cfg AHBLiteSlaveRAM_hooks [tb_idle, tb_write 16 2, tb_idle]
       (init_state tb_cfg tb_mem) = Inr tb_error1
   \<and> next_ready tb_cfg tb_deny = Some False
   \<and> \<not> (error tb_error1 \<longrightarrow>
          hready (out_state (proc_txn_edge tb_cfg AHBLiteSlaveRAM_hooks tb_deny tb_error1)) = Some 0)"
proof -
  have "proc_txn_edge tb_cfg AHBLiteSlaveRAM_hooks tb_deny tb_error1
      = Inr (tb_error1\<lparr>hready := Some 1, hresp := Some (resp_code ERROR), error := False\<rparr>)"
    by (rule error_edge_second [OF _ _ _ tb_next_ready(2)])
      (simp_all add: tb_error1_def tb_rejected_def)
  moreover have "error tb_error1" by (simp add: tb_error1_def tb_rejected_def)
  ultimately show ?thesis using tb_run_error1 tb_next_ready(2) by (simp add: out_state_def)
qed

text \<open>
  Claim C10. At an edge of a run from the initial state where a latched write or read is
  rejected by its validity hook, the edge ends with the error flag set and the response
  OKAY; the next edge (at which the generator, if any, yields) drives ERROR.
\<close>

theorem rejection_okay_then_error:
  assumes reach: "proc_txn cfg hk inps (init_state cfg m0) = Inr s0"
    and dp: "data_phase cfg hk inp s0 = Inr s"
    and acc: "new_txn cfg inp (hready s0) = Inr True"
    and l: "latch cfg inp s = Inr l"
    and rej: "(txn_type l = WRITE \<and> \<not> chk_wr hk (backend l) (txn_addr l) (txn_size l))
            \<or> (txn_type l = READ \<and> \<not> chk_rd hk (backend l) (txn_addr l) (txn_size l))"
    and n: "next_ready cfg inp1 \<noteq> None"
  shows "\<exists>r. proc_txn_edge cfg hk inp s0 = Inr r \<and> error r
    \<and> hresp r = Some (resp_code OKAY)
    \<and> (\<exists>r1. proc_txn_edge cfg hk inp1 r = Inr r1 \<and> hresp r1 = Some (resp_code ERROR))"
proof -
  from n obtain g where g: "next_ready cfg inp1 = Some g" by auto
  from accepted_okay [OF reach dp acc l]
  have ok: "hresp l = Some (resp_code OKAY)" by simp
  from rej obtain r where edge: "start_txn hk l = Inr r"
    and r: "error r" "hready r = Some 0" "hresp r = hresp l"
  proof
    assume a: "txn_type l = WRITE \<and> \<not> chk_wr hk (backend l) (txn_addr l) (txn_size l)"
    show ?thesis
      by (rule that [of "l\<lparr>hready := Some 0, hrdata := Some 0, error := True, wr_start := False\<rparr>"])
        (simp_all add: a start_txn_reject_write)
  next
    assume a: "txn_type l = READ \<and> \<not> chk_rd hk (backend l) (txn_addr l) (txn_size l)"
    show ?thesis
      by (rule that [of "l\<lparr>hready := Some 0, error := True\<rparr>"])
        (simp_all add: a start_txn_reject_read)
  qed
  have "proc_txn_edge cfg hk inp s0 = Inr r"
    using edge_latched [OF dp acc l] edge by simp
  moreover have "proc_txn_edge cfg hk inp1 r
      = Inr (r\<lparr>hready := Some 0, hresp := Some (resp_code ERROR)\<rparr>)"
    using r ok g by (simp add: error_edge_first)
  ultimately show ?thesis using r ok by simp
qed

text \<open>
  The WORD read of address 16 of the test bench, after one idle edge.
\<close>

theorem rejection_okay_then_error_witness:
  "proc_txn tb_cfg AHBLiteSlaveRAM_hooks [tb_idle] (init_state tb_cfg tb_mem) = Inr tb_ready
   \<and> data_phase tb_cfg AHBLiteSlaveRAM_hooks (tb_read 16 2) tb_ready = Inr tb_ready
   \<and> new_txn tb_cfg (tb_read 16 2) (hready tb_ready) = Inr True
   \<and> latch tb_cfg (tb_read 16 2) tb_ready
       = Inr (tb_ready\<lparr>txn_addr := 16, txn_size := WORD, txn_type := READ\<rparr>)
   \<and> \<not> chk_rd AHBLiteSlaveRAM_hooks (backend tb_ready) 16 WORD
   \<and> next_ready tb_cfg tb_idle \<noteq> None
   \<and> (\<exists>r. proc_txn_edge tb_cfg AHBLiteSlaveRAM_hooks (tb_read 16 2) tb_ready = Inr r \<and> error r
        \<and> hresp r = Some (resp_code OKAY)
        \<and> (\<exists>r1. proc_txn_edge tb_cfg AHBLiteSlaveRAM_hooks tb_idle r = Inr r1
              \<and> hresp r1 = Some (resp_code ERROR)))"
proof -
  have n: "next_ready tb_cfg tb_idle \<noteq> None" by (simp add: tb_next_ready)
  have rej: "(txn_type (tb_ready\<lparr>txn_addr := 16, txn_size := WORD, txn_type := READ\<rparr>) = WRITE
      \<and> \<not> chk_wr AHBLiteSlaveRAM_hooks
            (backend (tb_ready\<lparr>txn_addr := 16, txn_size := WORD, txn_type := READ\<rparr>))
            (txn_addr (tb_ready\<lparr>txn_addr := 16, txn_size := WORD, txn_type := READ\<rparr>))
            (txn_size (tb_ready\<lparr>txn_addr := 16, txn_size := WORD, txn_type := READ\<rparr>)))
    \<or> (txn_type (tb_ready\<lparr>txn_addr := 16, txn_size := WORD, txn_type := READ\<rparr>) = READ
      \<and> \<not> chk_rd AHBLiteSlaveRAM_hooks
            (backend (tb_ready\<lparr>txn_addr := 16, txn_size := WORD, txn_type := READ\<rparr>))
            (txn_addr (tb_ready\<lparr>txn_addr := 16, txn_size := WORD, txn_type := READ\<rparr>))
            (txn_size (tb_ready\<lparr>txn_addr := 16, txn_size := WORD, txn_type := READ\<rparr>)))"
    using tb_reject(2) by simp
  from rejection_okay_then_error [OF tb_run_ready tb_data_phase(2) tb_new_txn(2) tb_latch(2) rej n]
    tb_run_ready tb_data_phase(2) tb_new_txn(2) tb_latch(2) tb_reject(2) n
  show ?thesis by blast
qed

subsection \<open>The size check and the acceptance of an address phase\<close>

lemma latch_too_large:
  assumes "haddr inp = Some a" and "hsize inp = Some z" and "AHBSize_of z = Inr n"
    and "hwrite inp = Some d" and "AHBWrite_of d = Inr ty" and "2 ^ n > data_width cfg"
  shows "latch cfg inp s
    = Inl (SizeLargerThanBus, s\<lparr>txn_addr := a, txn_size := n, txn_type := ty\<rparr>)"
  using assms by (simp add: latch_def check_size_def Let_def)

text \<open>
  Claim C3. \<^verbatim>\<open>_check_size\<close> raises exactly when the size exceeds the bus width or
  is not a positive power of two. When, in a run from the initial state, an address phase
  is latched whose \<open>2 ^ hsize\<close> exceeds the bus width, the edge raises the error of the
  size check; at the raise the three latched fields are assigned and everything else, the
  driven wires included, is as the first half of the edge left it: the error flag is unset
  and the response is OKAY, so no error sequence is started.
\<close>

theorem size_check_fatal:
  "((\<exists>e. check_size sz w = Inl e) \<longleftrightarrow> (sz > w \<or> \<not> (\<exists>k. sz = 2 ^ k)))
   \<and> (proc_txn cfg hk inps (init_state cfg m0) = Inr s0
       \<and> data_phase cfg hk inp s0 = Inr s \<and> new_txn cfg inp (hready s0) = Inr True
       \<and> haddr inp = Some a \<and> hsize inp = Some z \<and> AHBSize_of z = Inr n
       \<and> hwrite inp = Some d \<and> AHBWrite_of d = Inr ty \<and> 2 ^ n > data_width cfg
      \<longrightarrow> proc_txn_edge cfg hk inp s0
            = Inl (SizeLargerThanBus, s\<lparr>txn_addr := a, txn_size := n, txn_type := ty\<rparr>)
          \<and> \<not> error s \<and> hresp s = Some (resp_code OKAY))"
proof (intro conjI impI)
  show "(\<exists>e. check_size sz w = Inl e) \<longleftrightarrow> (sz > w \<or> \<not> (\<exists>k. sz = 2 ^ k))"
    by (rule check_size_raises)
next
  assume a: "proc_txn cfg hk inps (init_state cfg m0) = Inr s0
       \<and> data_phase cfg hk inp s0 = Inr s \<and> new_txn cfg inp (hready s0) = Inr True
       \<and> haddr inp = Some a \<and> hsize inp = Some z \<and> AHBSize_of z = Inr n
       \<and> hwrite inp = Some d \<and> AHBWrite_of d = Inr ty \<and> 2 ^ n > data_width cfg"
  then have "latch cfg inp s
      = Inl (SizeLargerThanBus, s\<lparr>txn_addr := a, txn_size := n, txn_type := ty\<rparr>)"
    by (simp add: latch_too_large)
  with a show "proc_txn_edge cfg hk inp s0
      = Inl (SizeLargerThanBus, s\<lparr>txn_addr := a, txn_size := n, txn_type := ty\<rparr>)"
    by (simp add: proc_txn_edge_def addr_phase_def)
  from a have "hready s0 = Some 1" using new_txn_True_hready [of cfg inp "hready s0"] by blast
  with a reach_inv(1) [of cfg hk inps m0 s0] have "\<not> error s0" by auto
  with a data_phase_no_error [of cfg hk inp s0 s]
  show "\<not> error s" and "hresp s = Some (resp_code OKAY)" by simp_all
qed

text \<open>
  A DWORD read, 8 bytes, on the 4-byte bus of the test bench.
\<close>

theorem size_check_fatal_witness:
  "proc_txn tb_cfg AHBLiteSlaveRAM_hooks [tb_idle] (init_state tb_cfg tb_mem) = Inr tb_ready
   \<and> data_phase tb_cfg AHBLiteSlaveRAM_hooks (tb_read 0 3) tb_ready = Inr tb_ready
   \<and> new_txn tb_cfg (tb_read 0 3) (hready tb_ready) = Inr True
   \<and> haddr (tb_read 0 3) = Some 0 \<and> hsize (tb_read 0 3) = Some 3 \<and> AHBSize_of 3 = Inr DWORD
   \<and> hwrite (tb_read 0 3) = Some 0 \<and> AHBWrite_of 0 = Inr READ
   \<and> (2::int) ^ DWORD > data_width tb_cfg
   \<and> proc_txn_edge tb_cfg AHBLiteSlaveRAM_hooks (tb_read 0 3) tb_ready
       = Inl (SizeLargerThanBus, tb_ready\<lparr>txn_addr := 0, txn_size := DWORD, txn_type := READ\<rparr>)
   \<and> \<not> error tb_ready \<and> hresp tb_ready = Some (resp_code OKAY)
   \<and> (\<exists>e. check_size 8 4 = Inl e)"
proof -
  have f: "haddr (tb_read 0 3) = Some 0" "hsize (tb_read 0 3) = Some 3" "AHBSize_of 3 = Inr DWORD"
    "hwrite (tb_read 0 3) = Some 0" "AHBWrite_of 0 = Inr READ"
    "(2::int) ^ DWORD > data_width tb_cfg"
    by (simp_all add: tb_read_def tb_idle_def tb_cfg_def AHBSize_of_def AHBWrite_of_def DWORD_def)
  note t = size_check_fatal [of 8 4 tb_cfg AHBLiteSlaveRAM_hooks "[tb_idle]" tb_mem tb_ready
      "tb_read 0 3" tb_ready 0 3 DWORD 0 READ]
  have "\<exists>e. check_size 8 4 = Inl e" using t by simp
  moreover from t tb_run_ready tb_data_phase(2) tb_new_txn(2) f
  have "proc_txn_edge tb_cfg AHBLiteSlaveRAM_hooks (tb_read 0 3) tb_ready
       = Inl (SizeLargerThanBus, tb_ready\<lparr>txn_addr := 0, txn_size := DWORD, txn_type := READ\<rparr>)
     \<and> \<not> error tb_ready \<and> hresp tb_ready = Some (resp_code OKAY)"
    by blast
  ultimately show ?thesis using tb_run_ready tb_data_phase(2) tb_new_txn(2) f by blast
qed

lemma check_valid_txn_True:
  "check_valid_txn cfg inp = Inr True \<longleftrightarrow>
     (case htrans inp of
        None \<Rightarrow> False
      | Some t \<Rightarrow>
          (case AHBTrans_of t of Inl e \<Rightarrow> False | Inr tr \<Rightarrow> tr \<noteq> IDLE \<and> tr \<noteq> BUSY))
     \<and> (hsel_exist cfg \<longrightarrow> hsel inp = Some 1)
     \<and> (hsel_exist cfg \<and> hready_in_exist cfg \<longrightarrow> hready_in inp = Some 1)"
proof (cases "htrans inp")
  case None
  then show ?thesis by (simp add: check_valid_txn_def)
next
  case (Some t)
  show ?thesis
  proof (cases "AHBTrans_of t")
    case (Inl e)
    with Some show ?thesis by (simp add: check_valid_txn_def)
  next
    case (Inr tr)
    show ?thesis
    proof (cases "hsel inp")
      case None
      with Some Inr show ?thesis by (simp add: check_valid_txn_def sig_eq_def Let_def)
    next
      case sel: (Some v)
      show ?thesis
      proof (cases "hready_in inp")
        case None
        with Some Inr sel show ?thesis
          by (simp add: check_valid_txn_def sig_eq_def Let_def)
      next
        case rin: (Some u)
        with Some Inr sel show ?thesis
          by (auto simp: check_valid_txn_def sig_eq_def Let_def)
      qed
    qed
  qed
qed

lemma new_txn_acceptance: "new_txn cfg inp cur = Inr True \<longleftrightarrow> acceptance cfg inp cur"
proof (cases cur)
  case None
  then show ?thesis by (simp add: new_txn_def acceptance_def sig_eq_def)
next
  case (Some c)
  show ?thesis
  proof (cases "c = 1")
    case True
    with Some show ?thesis
      using check_valid_txn_True [of cfg inp]
      by (simp add: new_txn_def acceptance_def sig_eq_def check_inputs_def)
  next
    case False
    with Some show ?thesis by (simp add: new_txn_def acceptance_def sig_eq_def)
  qed
qed

text \<open>
  Claim C4, as amended. An address phase is latched exactly under \<open>acceptance\<close>: the
  \<^verbatim>\<open>hready\<close> of the cycle before is 1, \<^verbatim>\<open>htrans\<close>, \<^verbatim>\<open>hwrite\<close>, \<^verbatim>\<open>haddr\<close> and
  \<^verbatim>\<open>hsize\<close> are resolvable, \<^verbatim>\<open>htrans\<close> is neither IDLE nor BUSY, \<^verbatim>\<open>hsel\<close> is 1
  when that wire exists, and \<^verbatim>\<open>hready_in\<close> is 1 when both the \<^verbatim>\<open>hsel\<close> and the
  \<^verbatim>\<open>hready_in\<close> wires exist. When the condition fails, the second half of the edge,
  whether it returns or raises, leaves the whole state as it was.
\<close>

theorem acceptance_exact:
  "(new_txn cfg inp cur = Inr True \<longleftrightarrow> acceptance cfg inp cur)
   \<and> (\<not> acceptance cfg inp cur \<longrightarrow> out_state (addr_phase cfg hk inp cur s) = s)"
  using new_txn_acceptance [of cfg inp cur] addr_phase_skip [of cfg inp cur hk s] by blast

text \<open>
  In the test bench a WORD write is accepted and an idle cycle is not.
\<close>

theorem acceptance_exact_witness:
  "acceptance tb_cfg (tb_write 4 2) (hready tb_ready)
   \<and> new_txn tb_cfg (tb_write 4 2) (hready tb_ready) = Inr True
   \<and> \<not> acceptance tb_cfg tb_idle (hready tb_ready)
   \<and> out_state (addr_phase tb_cfg AHBLiteSlaveRAM_hooks tb_idle (hready tb_ready) tb_ready)
       = tb_ready"
proof -
  have a: "acceptance tb_cfg (tb_write 4 2) (hready tb_ready)"
    using acceptance_exact [of tb_cfg "tb_write 4 2" "hready tb_ready"] tb_new_txn(1) by blast
  have "new_txn tb_cfg tb_idle (hready tb_ready) \<noteq> Inr True"
    by (simp add: edge_defs tb_defs)
  then have b: "\<not> acceptance tb_cfg tb_idle (hready tb_ready)"
    using acceptance_exact [of tb_cfg tb_idle "hready tb_ready"] by blast
  from acceptance_exact [of tb_cfg tb_idle "hready tb_ready" AHBLiteSlaveRAM_hooks tb_ready] a b
    tb_new_txn(1)
  show ?thesis by blast
qed

text \<open>
  Claim C4, as stated, fails on a bus that has the \<^verbatim>\<open>hready_in\<close> wire and no
  \<^verbatim>\<open>hsel\<close> wire: with \<^verbatim>\<open>hready_in = 0\<close> the WORD write to address 4 is latched
  all the same, and the latched address changes from 0 to 4.
\<close>

theorem hready_in_counterexample:
  "\<not> (new_txn (tb_cfg\<lparr>hready_in_exist := True\<rparr>) ((tb_write 4 2)\<lparr>hready_in := Some 0\<rparr>)
          (hready tb_ready) = Inr True
        \<longrightarrow> (hready_in_exist (tb_cfg\<lparr>hready_in_exist := True\<rparr>)
              \<longrightarrow> hready_in ((tb_write 4 2)\<lparr>hready_in := Some 0\<rparr>) = Some 1))
   \<and> txn_addr (out_state (addr_phase (tb_cfg\<lparr>hready_in_exist := True\<rparr>) AHBLiteSlaveRAM_hooks
         ((tb_write 4 2)\<lparr>hready_in := Some 0\<rparr>) (hready tb_ready) tb_ready)) = 4
   \<and> txn_addr tb_ready = 0"
  by (simp add: edge_defs tb_defs out_state_def)

end
